theory Spec2Isabelle
  imports Main "HOL-Library.AList"
begin

unbundle bit_operations_syntax

section \<open>Python strings and the exceptions of the program\<close>

text \<open>
  A Python \<open>str\<close> is a sequence of Unicode code points, so it is modelled as a list of
  natural numbers (the value of \<open>ord\<close> at each position); a \<open>str\<close> of Python only holds
  code points below \<open>0x110000\<close>. Literals of the source are written with \<open>py\<close>.
\<close>

type_synonym pystr = "nat list"

definition py :: "string \<Rightarrow> pystr" where
  "py s = map of_char s"

definition valid_str :: "pystr \<Rightarrow> bool" where
  "valid_str s = list_all (\<lambda>c. c < 0x110000) s"

text \<open>
  The surrogate code points. A \<open>str\<close> of Python may hold them, alone or next to each
  other; \<open>no_surrogate_pair\<close> holds of a string in which no high surrogate is followed
  at once by a low one.
\<close>

definition is_high :: "nat \<Rightarrow> bool" where
  "is_high c = (0xd800 \<le> c \<and> c \<le> 0xdbff)"

definition is_low :: "nat \<Rightarrow> bool" where
  "is_low c = (0xdc00 \<le> c \<and> c \<le> 0xdfff)"

fun no_surrogate_pair :: "pystr \<Rightarrow> bool" where
  "no_surrogate_pair (a # b # cs) = (\<not> (is_high a \<and> is_low b) \<and> no_surrogate_pair (b # cs))"
| "no_surrogate_pair cs = True"

definition encodable :: "pystr \<Rightarrow> bool" where
  "encodable s = (valid_str s \<and> no_surrogate_pair s)"

text \<open>
  The exceptions that the modelled code can raise. \<open>Unmodelled\<close> is not an exception of
  Python: it marks a settings file that is JSON outside the fragment modelled below
  (an object whose members are all strings), about which nothing is claimed.
\<close>

datatype py_exception =
    FileNotFoundError
  | PermissionError
  | OSError
  | JSONDecodeError
  | KeyError pystr
  | ValueError
  | Unmodelled

section \<open>The \<open>json\<close> module on dictionaries of strings\<close>

subsection \<open>\<open>json.dump\<close> with its default arguments\<close>

text \<open>
  \<open>'\\u{0:04x}'.format(n)\<close>: a backslash, \<open>u\<close> and four lower-case hexadecimal digits.
  The encoder only calls it with \<open>n < 0x10000\<close>.
\<close>

definition hexdigit :: "nat \<Rightarrow> nat" where
  "hexdigit d = (if d < 10 then 48 + d else 87 + d)"

definition hex4 :: "nat \<Rightarrow> pystr" where
  "hex4 n = [hexdigit (n div 4096 mod 16), hexdigit (n div 256 mod 16),
             hexdigit (n div 16 mod 16), hexdigit (n mod 16)]"

definition u_escape :: "nat \<Rightarrow> pystr" where
  "u_escape n = 92 # 117 # hex4 n"

text \<open>
  \<open>py_encode_basestring_ascii\<close> (\<open>ensure_ascii=True\<close>): every character outside
  \<open>' '..'~'\<close>, and the quote and the backslash, is replaced; a code point beyond the
  basic plane becomes a surrogate pair.
\<close>

definition escape_char :: "nat \<Rightarrow> pystr" where
  "escape_char c =
    (if c = 92 then [92, 92]
     else if c = 34 then [92, 34]
     else if c = 8 then [92, 98]
     else if c = 12 then [92, 102]
     else if c = 10 then [92, 110]
     else if c = 13 then [92, 114]
     else if c = 9 then [92, 116]
     else if 32 \<le> c \<and> c \<le> 126 then [c]
     else if c < 0x10000 then u_escape c
     else (let n = c - 0x10000;
               s1 = 0xd800 OR (drop_bit 10 n AND 0x3ff);
               s2 = 0xdc00 OR (n AND 0x3ff)
           in u_escape s1 @ u_escape s2))"

definition encode_string :: "pystr \<Rightarrow> pystr" where
  "encode_string s = 34 # concat (map escape_char s) @ [34]"

text \<open>
  A \<open>dict\<close> keeps its insertion order; it is an association list with distinct keys.
  The items are joined by \<open>', '\<close>, key and value by \<open>': '\<close>.
\<close>

type_synonym pydict = "(pystr \<times> pystr) list"

fun encode_items :: "pydict \<Rightarrow> pystr" where
  "encode_items [] = []"
| "encode_items [(k, v)] = encode_string k @ py '': '' @ encode_string v"
| "encode_items ((k, v) # kvs) =
     encode_string k @ py '': '' @ encode_string v @ py '', '' @ encode_items kvs"

definition json_dumps :: "pydict \<Rightarrow> pystr" where
  "json_dumps d = 123 # encode_items d @ [125]"

subsection \<open>\<open>json.load\<close>\<close>

fun skip_ws :: "pystr \<Rightarrow> pystr" where
  "skip_ws [] = []"
| "skip_ws (c # cs) = (if c = 32 \<or> c = 9 \<or> c = 10 \<or> c = 13 then skip_ws cs else c # cs)"

definition hexval :: "nat \<Rightarrow> nat option" where
  "hexval c =
    (if 48 \<le> c \<and> c \<le> 57 then Some (c - 48)
     else if 97 \<le> c \<and> c \<le> 102 then Some (c - 87)
     else if 65 \<le> c \<and> c \<le> 70 then Some (c - 55)
     else None)"

text \<open>\<open>_decode_uXXXX\<close>: the four characters after the \<open>u\<close> must be hexadecimal digits.\<close>

definition decode_uXXXX :: "pystr \<Rightarrow> nat option" where
  "decode_uXXXX t =
    (case t of
       a # b # c # d # _ \<Rightarrow>
         (case (hexval a, hexval b, hexval c, hexval d) of
            (Some x3, Some x2, Some x1, Some x0) \<Rightarrow> Some (x3 * 4096 + x2 * 256 + x1 * 16 + x0)
          | _ \<Rightarrow> None)
     | _ \<Rightarrow> None)"

text \<open>The table \<open>BACKSLASH\<close> of the one-letter escapes.\<close>

definition backslash :: "nat \<Rightarrow> nat option" where
  "backslash e =
    (if e = 34 then Some 34
     else if e = 92 then Some 92
     else if e = 47 then Some 47
     else if e = 98 then Some 8
     else if e = 102 then Some 12
     else if e = 110 then Some 10
     else if e = 114 then Some 13
     else if e = 116 then Some 9
     else None)"

definition prepend :: "nat \<Rightarrow> py_exception + (pystr \<times> pystr) \<Rightarrow> py_exception + (pystr \<times> pystr)" where
  "prepend c r = (case r of Inl e \<Rightarrow> Inl e | Inr (s, rest) \<Rightarrow> Inr (c # s, rest))"

text \<open>
  \<open>scanstring\<close> (\<open>strict=True\<close>), called on the text after the opening quote: it returns
  the decoded string and the text after the closing quote. A high surrogate escape
  followed by a low surrogate escape is joined into one code point.
\<close>

function scanstring :: "pystr \<Rightarrow> py_exception + (pystr \<times> pystr)" where
  "scanstring [] = Inl JSONDecodeError"
| "scanstring (c # t) =
    (if c = 34 then Inr ([], t)
     else if c < 32 then Inl JSONDecodeError
     else if c \<noteq> 92 then prepend c (scanstring t)
     else (case t of
             [] \<Rightarrow> Inl JSONDecodeError
           | e # t1 \<Rightarrow>
               if e \<noteq> 117 then
                 (case backslash e of
                    None \<Rightarrow> Inl JSONDecodeError
                  | Some ch \<Rightarrow> prepend ch (scanstring t1))
               else
                 (case decode_uXXXX t1 of
                    None \<Rightarrow> Inl JSONDecodeError
                  | Some uni \<Rightarrow>
                      if 0xd800 \<le> uni \<and> uni \<le> 0xdbff \<and> take 2 (drop 4 t1) = [92, 117] then
                        (case decode_uXXXX (drop 6 t1) of
                           None \<Rightarrow> Inl JSONDecodeError
                         | Some uni2 \<Rightarrow>
                             if 0xdc00 \<le> uni2 \<and> uni2 \<le> 0xdfff then
                               prepend (0x10000 + (push_bit 10 (uni - 0xd800) OR (uni2 - 0xdc00)))
                                 (scanstring (drop 10 t1))
                             else prepend uni (scanstring (drop 4 t1)))
                      else prepend uni (scanstring (drop 4 t1)))))"
  by pat_completeness auto
termination
  by (relation "measure length") auto


lemma scanstring_rest_shorter:
  "scanstring t = Inr (s, rest) \<Longrightarrow> length rest < length t"
proof (induction "length t" arbitrary: t s rule: less_induct)
  case less
  show ?case
  proof (cases t)
    case Nil
    with less.prems show ?thesis by simp
  next
    case (Cons c t0)
    have IH: "length rest < length t"
      if "scanstring t' = Inr (s', rest)" and "length t' \<le> length t0" for t' s'
    proof -
      from that(2) Cons have "length t' < length t" by simp
      from less.hyps [OF this that(1)] that(2) Cons show ?thesis by simp
    qed
    from less.prems Cons show ?thesis
      by (auto simp: prepend_def
               split: if_splits list.splits option.splits sum.splits prod.splits
               dest!: IH)
  qed
qed

lemma skip_ws_length: "length (skip_ws t) \<le> length t"
  by (induction t) (auto intro: le_SucI)

text \<open>
  The first character of a JSON value that is not a string: such a member, or such a
  document, is outside the modelled fragment.
\<close>

definition starts_other_value :: "nat \<Rightarrow> bool" where
  "starts_other_value c =
     (c = 123 \<or> c = 91 \<or> c = 45 \<or> (48 \<le> c \<and> c \<le> 57) \<or> c = 116 \<or> c = 102 \<or> c = 110
      \<or> c = 78 \<or> c = 73)"

text \<open>
  The loop of \<open>JSONObject\<close>, entered after the opening quote of a key with the pairs
  read so far; it returns the pairs and the text after the closing brace.
\<close>

function parse_members :: "pydict \<Rightarrow> pystr \<Rightarrow> py_exception + (pydict \<times> pystr)" where
  "parse_members pairs t =
    (case scanstring t of
       Inl e \<Rightarrow> Inl e
     | Inr (key, t1) \<Rightarrow>
        (case skip_ws t1 of
           [] \<Rightarrow> Inl JSONDecodeError
         | c # t2 \<Rightarrow>
            if c \<noteq> 58 then Inl JSONDecodeError
            else
             (case skip_ws t2 of
                [] \<Rightarrow> Inl JSONDecodeError
              | v # t3 \<Rightarrow>
                 if v = 34 then
                  (case scanstring t3 of
                     Inl e \<Rightarrow> Inl e
                   | Inr (val, t4) \<Rightarrow>
                      (case skip_ws t4 of
                         [] \<Rightarrow> Inl JSONDecodeError
                       | d # t5 \<Rightarrow>
                          if d = 125 then Inr (pairs @ [(key, val)], t5)
                          else if d \<noteq> 44 then Inl JSONDecodeError
                          else
                           (case skip_ws t5 of
                              [] \<Rightarrow> Inl JSONDecodeError
                            | q # t6 \<Rightarrow>
                               if q = 34 then parse_members (pairs @ [(key, val)]) t6
                               else Inl JSONDecodeError)))
                 else if starts_other_value v then Inl Unmodelled
                 else Inl JSONDecodeError)))"
  by pat_completeness auto
termination
proof (relation "measure (\<lambda>(pairs, t). length t)", goal_cases)
  case 1
  show ?case by simp
next
  case (2 pairs t x2 key t1 c t2 v t3 y2 val t4 d t5 q t6)
  have a: "length t1 < length t"
    using 2 by (auto dest: scanstring_rest_shorter)
  have b: "length t2 < length t1"
    using skip_ws_length [of t1] 2 by simp
  have c: "length t3 < length t2"
    using skip_ws_length [of t2] 2 by simp
  have d: "length t4 < length t3"
    using 2 by (auto dest: scanstring_rest_shorter)
  have e: "length t5 < length t4"
    using skip_ws_length [of t4] 2 by simp
  have f: "length t6 < length t5"
    using skip_ws_length [of t5] 2 by simp
  from a b c d e f show ?case by simp
qed

text \<open>\<open>JSONObject\<close>, called on the text after the opening brace.\<close>

definition parse_object :: "pystr \<Rightarrow> py_exception + (pydict \<times> pystr)" where
  "parse_object t =
    (case skip_ws t of
       [] \<Rightarrow> Inl JSONDecodeError
     | c # t' \<Rightarrow>
        if c = 125 then Inr ([], t')
        else if c = 34 then parse_members [] t'
        else Inl JSONDecodeError)"

text \<open>\<open>dict(pairs)\<close>: a later pair with the same key replaces the value in place.\<close>

definition dict_of_pairs :: "pydict \<Rightarrow> pydict" where
  "dict_of_pairs pairs = foldl (\<lambda>d (k, v). AList.update k v d) [] pairs"

text \<open>
  \<open>JSONDecoder.decode\<close>: white space, one value, white space, and nothing else
  (\<open>Extra data\<close> otherwise).
\<close>

definition json_loads :: "pystr \<Rightarrow> py_exception + pydict" where
  "json_loads s =
    (case skip_ws s of
       [] \<Rightarrow> Inl JSONDecodeError
     | c # t \<Rightarrow>
        if c = 123 then
          (case parse_object t of
             Inl e \<Rightarrow> Inl e
           | Inr (pairs, rest) \<Rightarrow>
               if skip_ws rest = [] then Inr (dict_of_pairs pairs) else Inl JSONDecodeError)
        else if c = 34 \<or> starts_other_value c then Inl Unmodelled
        else Inl JSONDecodeError)"

text \<open>\<open>d[key]\<close> raises \<open>KeyError\<close> when the key is absent.\<close>

definition getitem :: "pydict \<Rightarrow> pystr \<Rightarrow> py_exception + pystr" where
  "getitem d k = (case map_of d k of None \<Rightarrow> Inl (KeyError k) | Some v \<Rightarrow> Inr v)"

text \<open>
  The text at which \<open>scanstring\<close>, having just read the escape of a high surrogate,
  goes on to read a low surrogate (or to fail on a broken escape).
\<close>

definition starts_low :: "pystr \<Rightarrow> bool" where
  "starts_low E = (take 2 E = [92, 117] \<and>
     (case decode_uXXXX (drop 2 E) of None \<Rightarrow> True | Some u \<Rightarrow> is_low u))"

section \<open>The program state and its environment\<close>

text \<open>
  What the modules \<open>os\<close>, \<open>os.path\<close> and \<open>subprocess\<close> answer. The program
  only reads these. A time stamp is the number \<open>os.path.getmtime\<close> returns; only its
  order is used. \<open>popen_error\<close> tells whether \<open>subprocess.Popen\<close> raises for an
  argument list (the executable is missing or may not be run).
\<close>

record os_env =
  listdir :: "pystr \<Rightarrow> py_exception + pystr list"
  getmtime :: "pystr \<Rightarrow> py_exception + int"
  path_join :: "pystr \<Rightarrow> pystr \<Rightarrow> pystr"
  basename :: "pystr \<Rightarrow> pystr"
  popen_error :: "pystr list \<Rightarrow> py_exception option"

datatype dialog =
    ShowError pystr pystr
  | ShowWarning pystr pystr
  | ShowInfo pystr pystr

record label =
  label_text :: pystr
  label_fg :: pystr

text \<open>
  The module's global variables, the settings file at \<open>CONFIG_FILE\<close> (\<open>None\<close> when it
  does not exist; \<open>config_writable\<close> tells whether it can be opened for writing), and
  the traces of what the program did to the outside: the argument list of every call
  of \<open>subprocess.Popen\<close>, the processes sent \<open>terminate()\<close>, the message boxes shown and
  the lines printed. A process handle is the position of its call in \<open>popen_calls\<close>.
\<close>

record app_state =
  config_file :: "pystr option"
  config_writable :: bool
  YOUTUBE_URL :: pystr
  STREAM_KEY :: pystr
  VIDEO_FOLDER :: pystr
  ffmpeg_process :: "nat option"
  stream_status_label :: label
  popen_calls :: "pystr list list"
  terminate_calls :: "nat list"
  dialogs :: "dialog list"
  printed :: "pystr list"

section \<open>The settings file\<close>

definition default_config :: pydict where
  "default_config =
     [(py ''YOUTUBE_URL'', py ''rtmp://a.rtmp.youtube.com/live2''), (py ''STREAM_KEY'', [])]"

definition load_config :: "app_state \<Rightarrow> py_exception + pydict" where
  "load_config s =
    (case config_file s of
       None \<Rightarrow> Inl FileNotFoundError
     | Some txt \<Rightarrow> json_loads txt)"

definition save_config :: "pystr \<Rightarrow> pystr \<Rightarrow> app_state \<Rightarrow> py_exception + app_state" where
  "save_config yt_url stream_key s =
    (let config = [(py ''YOUTUBE_URL'', yt_url), (py ''STREAM_KEY'', stream_key)]
     in if config_writable s then Inr (s\<lparr>config_file := Some (json_dumps config)\<rparr>)
        else Inl PermissionError)"

text \<open>
  The statements the module runs when it is imported, before the first event: the
  settings file is created with the default values if it does not exist, the settings
  are loaded into the globals, and the other globals and the status label get their
  first values. It is given the content of the settings file found (\<open>None\<close> on a first
  run) and whether the file can be written.
\<close>

definition module_init :: "pystr option \<Rightarrow> bool \<Rightarrow> py_exception + app_state" where
  "module_init file writable =
    (if file = None \<and> \<not> writable then Inl PermissionError
     else
      (let file' = (case file of None \<Rightarrow> json_dumps default_config | Some txt \<Rightarrow> txt);
           s0 = \<lparr>config_file = Some file', config_writable = writable,
                 YOUTUBE_URL = [], STREAM_KEY = [], VIDEO_FOLDER = [],
                 ffmpeg_process = None,
                 stream_status_label =
                   \<lparr>label_text = py ''Stream Status: Not Started'', label_fg = py ''gray''\<rparr>,
                 popen_calls = [], terminate_calls = [], dialogs = [], printed = []\<rparr>
       in case load_config s0 of
            Inl e \<Rightarrow> Inl e
          | Inr config \<Rightarrow>
             (case getitem config (py ''YOUTUBE_URL'') of
                Inl e \<Rightarrow> Inl e
              | Inr url \<Rightarrow>
                 (case getitem config (py ''STREAM_KEY'') of
                    Inl e \<Rightarrow> Inl e
                  | Inr key \<Rightarrow> Inr (s0\<lparr>YOUTUBE_URL := url, STREAM_KEY := key\<rparr>)))))"

section \<open>The newest file of a folder\<close>

definition endswith :: "pystr \<Rightarrow> pystr \<Rightarrow> bool" where
  "endswith f suffix =
     (length suffix \<le> length f \<and> drop (length f - length suffix) f = suffix)"

text \<open>
  \<open>max(items, key=...)\<close>: the key of each item is computed in turn, the first exception
  ends the call, and an item replaces the best one so far only when its key is
  strictly greater. \<open>max\<close> of an empty list raises \<open>ValueError\<close>.
\<close>

fun max_from :: "(pystr \<Rightarrow> py_exception + int) \<Rightarrow> pystr \<Rightarrow> int \<Rightarrow> pystr list \<Rightarrow> py_exception + pystr" where
  "max_from key maxitem maxval [] = Inr maxitem"
| "max_from key maxitem maxval (x # xs) =
     (case key x of
        Inl e \<Rightarrow> Inl e
      | Inr v \<Rightarrow> if v > maxval then max_from key x v xs else max_from key maxitem maxval xs)"

fun py_max :: "(pystr \<Rightarrow> py_exception + int) \<Rightarrow> pystr list \<Rightarrow> py_exception + pystr" where
  "py_max key [] = Inl ValueError"
| "py_max key (x # xs) = (case key x of Inl e \<Rightarrow> Inl e | Inr v \<Rightarrow> max_from key x v xs)"

definition mp4_names :: "pystr list \<Rightarrow> pystr list" where
  "mp4_names names = filter (\<lambda>f. endswith f (py ''.mp4'')) names"

definition get_newest_mp4 :: "os_env \<Rightarrow> pystr \<Rightarrow> py_exception + pystr option" where
  "get_newest_mp4 os folder =
    (if folder = [] then Inr None
     else
      (case listdir os folder of
         Inl e \<Rightarrow> Inl e
       | Inr names \<Rightarrow>
          (let mp4_files = map (path_join os folder) (mp4_names names)
           in if mp4_files = [] then Inr None
              else (case py_max (getmtime os) mp4_files of
                      Inl e \<Rightarrow> Inl e
                    | Inr p \<Rightarrow> Inr (Some p)))))"

section \<open>Starting and stopping the stream\<close>

definition ffmpeg_command :: "pystr \<Rightarrow> pystr \<Rightarrow> pystr \<Rightarrow> pystr list" where
  "ffmpeg_command newest_mp4 youtube_url stream_key =
    [py ''ffmpeg'',
     py ''-re'',
     py ''-i'', newest_mp4,
     py ''-s'', py ''1920x1080'',
     py ''-r'', py ''30'',
     py ''-c:v'', py ''libx264'',
     py ''-preset'', py ''veryfast'',
     py ''-b:v'', py ''4500k'',
     py ''-maxrate'', py ''5000k'',
     py ''-bufsize'', py ''10000k'',
     py ''-pix_fmt'', py ''yuv420p'',
     py ''-g'', py ''60'',
     py ''-c:a'', py ''aac'',
     py ''-b:a'', py ''192k'',
     py ''-ac'', py ''2'',
     py ''-ar'', py ''44100'',
     py ''-f'', py ''flv'',
     youtube_url @ py ''/'' @ stream_key]"

definition no_folder_dialog :: dialog where
  "no_folder_dialog = ShowError (py ''Error'') (py ''Please select a folder first!'')"

definition no_mp4_dialog :: dialog where
  "no_mp4_dialog =
     ShowWarning (py ''No MP4 Found'') (py ''No MP4 files found in the selected folder.'')"

definition missing_key_dialog :: dialog where
  "missing_key_dialog =
     ShowError (py ''Error'') (py ''Stream Key is missing! Set it in Settings.'')"

definition stopped_dialog :: dialog where
  "stopped_dialog = ShowInfo (py ''Stream Stopped'') (py ''The stream has been stopped.'')"

definition show_dialog :: "dialog \<Rightarrow> app_state \<Rightarrow> app_state" where
  "show_dialog d s = s\<lparr>dialogs := dialogs s @ [d]\<rparr>"

text \<open>
  \<open>start_stream\<close> returns nothing; the result is the exception that left it, if any,
  and the state it leaves. \<open>not newest_mp4\<close> holds for \<open>None\<close> and for the empty string.
\<close>

definition start_stream :: "os_env \<Rightarrow> app_state \<Rightarrow> (py_exception + unit) \<times> app_state" where
  "start_stream os s =
    (if VIDEO_FOLDER s = [] then (Inr (), show_dialog no_folder_dialog s)
     else
      (case get_newest_mp4 os (VIDEO_FOLDER s) of
         Inl e \<Rightarrow> (Inl e, s)
       | Inr None \<Rightarrow> (Inr (), show_dialog no_mp4_dialog s)
       | Inr (Some newest_mp4) \<Rightarrow>
          if newest_mp4 = [] then (Inr (), show_dialog no_mp4_dialog s)
          else
           (case load_config s of
              Inl e \<Rightarrow> (Inl e, s)
            | Inr config \<Rightarrow>
               (case getitem config (py ''YOUTUBE_URL'') of
                  Inl e \<Rightarrow> (Inl e, s)
                | Inr youtube_url \<Rightarrow>
                   (case getitem config (py ''STREAM_KEY'') of
                      Inl e \<Rightarrow> (Inl e, s)
                    | Inr stream_key \<Rightarrow>
                       if stream_key = [] then (Inr (), show_dialog missing_key_dialog s)
                       else
                        (let cmd = ffmpeg_command newest_mp4 youtube_url stream_key;
                             s1 = s\<lparr>printed := printed s @ [py ''Streaming: '' @ newest_mp4],
                                    popen_calls := popen_calls s @ [cmd]\<rparr>
                         in case popen_error os cmd of
                              Some e \<Rightarrow> (Inl e, s1)
                            | None \<Rightarrow>
                               (Inr (),
                                s1\<lparr>ffmpeg_process := Some (length (popen_calls s)),
                                   stream_status_label :=
                                     \<lparr>label_text = py ''Streaming: '' @ basename os newest_mp4,
                                      label_fg = py ''blue''\<rparr>\<rparr>)))))))"

definition stop_stream :: "app_state \<Rightarrow> app_state" where
  "stop_stream s =
    (case ffmpeg_process s of
       None \<Rightarrow> s
     | Some h \<Rightarrow>
        show_dialog stopped_dialog
          (s\<lparr>terminate_calls := terminate_calls s @ [h],
             ffmpeg_process := None,
             stream_status_label :=
               \<lparr>label_text = py ''Stream Stopped'', label_fg = py ''red''\<rparr>\<rparr>))"

text \<open>
  The status the label shows: a stream is announced by the text \<open>Streaming: \<close> followed
  by the file name.
\<close>

definition is_streaming :: "label \<Rightarrow> bool" where
  "is_streaming l = (take 11 (label_text l) = py ''Streaming: '')"

definition session_inv :: "app_state \<Rightarrow> bool" where
  "session_inv s = ((ffmpeg_process s \<noteq> None) = is_streaming (stream_status_label s))"

section \<open>A small scenario\<close>

text \<open>
  A folder \<open>videos\<close> with an older \<open>a.mp4\<close>, a newer \<open>b.mp4\<close> and two files that do not
  match, a folder \<open>docs\<close> without a match, a folder \<open>clips\<close> with \<open>a.mp4\<close> and a link
  \<open>broken.mp4\<close> whose target is gone, and no other folder; paths are joined by \<open>/\<close>,
  and \<open>Popen\<close> never fails.
\<close>

definition demo_names :: "pystr list" where
  "demo_names = [py ''a.mp4'', py ''notes.txt'', py ''b.mp4'', py ''c.MP4'']"

definition demo_os :: os_env where
  "demo_os =
    \<lparr>listdir = (\<lambda>d. if d = py ''videos'' then Inr demo_names
                   else if d = py ''docs'' then Inr [py ''notes.txt'']
                   else if d = py ''clips'' then Inr [py ''a.mp4'', py ''broken.mp4'']
                   else Inl OSError),
     getmtime = (\<lambda>p. if p = py ''videos/a.mp4'' then Inr 100
                    else if p = py ''videos/b.mp4'' then Inr 200
                    else if p = py ''clips/a.mp4'' then Inr 100
                    else Inl FileNotFoundError),
     path_join = (\<lambda>d f. d @ py ''/'' @ f),
     basename = (\<lambda>p. rev (takeWhile (\<lambda>c. c \<noteq> 47) (rev p))),
     popen_error = (\<lambda>cmd. None)\<rparr>"

definition demo_state :: "pystr \<Rightarrow> pystr option \<Rightarrow> nat option \<Rightarrow> app_state" where
  "demo_state folder file process =
    \<lparr>config_file = file, config_writable = True,
     YOUTUBE_URL = py ''rtmp://a.rtmp.youtube.com/live2'', STREAM_KEY = [],
     VIDEO_FOLDER = folder,
     ffmpeg_process = process,
     stream_status_label =
       (case process of
          None \<Rightarrow> \<lparr>label_text = py ''Stream Status: Not Started'', label_fg = py ''gray''\<rparr>
        | Some h \<Rightarrow> \<lparr>label_text = py ''Streaming: a.mp4'', label_fg = py ''blue''\<rparr>),
     popen_calls = (case process of None \<Rightarrow> [] | Some h \<Rightarrow> replicate (Suc h) [py ''ffmpeg'']),
     terminate_calls = [], dialogs = [], printed = []\<rparr>"

text \<open>Settings as the settings window would save them.\<close>

definition demo_settings :: pydict where
  "demo_settings = [(py ''YOUTUBE_URL'', py ''rtmp://host/live2''), (py ''STREAM_KEY'', py ''secret123'')]"

section \<open>Decoding what the encoder wrote\<close>

lemma and_3ff: "(x::nat) AND 0x3ff = x mod 1024"
proof -
  have "x AND mask 10 = x mod 2 ^ 10"
    by (simp flip: take_bit_eq_mask add: take_bit_eq_mod)
  moreover have "(mask 10 :: nat) = 1023" by (simp add: mask_eq_exp_minus_1)
  ultimately show ?thesis by simp
qed

lemma push_or: "y < 2 ^ n \<Longrightarrow> push_bit n (x::nat) OR y = push_bit n x + y"
proof -
  assume "y < 2 ^ n"
  then have y: "take_bit n y = y" by (simp add: take_bit_nat_eq_self)
  have "push_bit n x AND take_bit n y = 0"
    by (rule bit_eqI) (auto simp: bit_simps)
  with y have "push_bit n x AND y = 0" by simp
  then show ?thesis by (simp add: disjunctive_add_eq_or)
qed

lemma or_d800: "x < 1024 \<Longrightarrow> (0xd800::nat) OR x = 0xd800 + x"
  using push_or [of x 10 54] by (simp add: push_bit_eq_mult)

lemma or_dc00: "x < 1024 \<Longrightarrow> (0xdc00::nat) OR x = 0xdc00 + x"
  using push_or [of x 10 55] by (simp add: push_bit_eq_mult)

lemma or_join: "y < 1024 \<Longrightarrow> push_bit 10 (x::nat) OR y = x * 1024 + y"
  using push_or [of y 10 x] by (simp add: push_bit_eq_mult)

lemma hexval_hexdigit: "d < 16 \<Longrightarrow> hexval (hexdigit d) = Some d"
  by (auto simp: hexval_def hexdigit_def)

lemma hex4_value:
  assumes "n < 65536"
  shows "n div 4096 mod 16 * 4096 + n div 256 mod 16 * 256 + n div 16 mod 16 * 16 + n mod 16
           = (n::nat)"
proof -
  define q1 where "q1 = n div 16"
  define q2 where "q2 = q1 div 16"
  define q3 where "q3 = q2 div 16"
  have e1: "n = q1 * 16 + n mod 16" by (simp add: q1_def)
  have e2: "q1 = q2 * 16 + q1 mod 16" by (simp add: q2_def)
  have e3: "q2 = q3 * 16 + q2 mod 16" by (simp add: q3_def)
  have "q3 < 16" using assms by (simp add: q3_def q2_def q1_def div_mult2_eq)
  then have e4: "q3 mod 16 = q3" by simp
  have d2: "n div 256 = q2" by (simp add: q2_def q1_def div_mult2_eq)
  have d3: "n div 4096 = q3" by (simp add: q3_def q2_def q1_def div_mult2_eq)
  have "q3 * 4096 + q2 mod 16 * 256 + q1 mod 16 * 16 + n mod 16
      = ((q3 * 16 + q2 mod 16) * 16 + q1 mod 16) * 16 + n mod 16"
    by (simp add: algebra_simps)
  also have "\<dots> = (q2 * 16 + q1 mod 16) * 16 + n mod 16" using e3 by simp
  also have "\<dots> = q1 * 16 + n mod 16" using e2 by simp
  also have "\<dots> = n" using e1 by simp
  finally show ?thesis by (simp add: d2 d3 e4 q1_def [symmetric])
qed

lemma decode_hex4:
  "n < 65536 \<Longrightarrow> decode_uXXXX (hex4 n @ rest) = Some n"
  using hex4_value [of n]
  by (simp add: hex4_def decode_uXXXX_def hexval_hexdigit)

lemma length_hex4 [simp]: "length (hex4 n) = 4"
  by (simp add: hex4_def)

lemma surrogates_of:
  assumes "65536 \<le> (c::nat)" and "c < 0x110000"
  defines "n \<equiv> c - 65536"
  shows "0xd800 OR (drop_bit 10 n AND 0x3ff) = 0xd800 + n div 1024"
    and "0xdc00 OR (n AND 0x3ff) = 0xdc00 + n mod 1024"
    and "n div 1024 < 1024"
proof -
  from assms have n: "n < 1048576" by simp
  then show d: "n div 1024 < 1024" by simp
  then show "0xd800 OR (drop_bit 10 n AND 0x3ff) = 0xd800 + n div 1024"
    by (simp add: and_3ff drop_bit_eq_div or_d800)
  show "0xdc00 OR (n AND 0x3ff) = 0xdc00 + n mod 1024"
    by (simp add: and_3ff or_dc00)
qed

lemma surrogates_join:
  assumes "65536 \<le> (c::nat)" and "c < 0x110000"
  shows "65536 + (push_bit 10 ((0xd800 + (c - 65536) div 1024) - 0xd800)
                   OR ((0xdc00 + (c - 65536) mod 1024) - 0xdc00)) = c"
proof -
  have "(c - 65536) mod 1024 < 1024" by simp
  then show ?thesis using assms by (simp add: or_join)
qed

lemma scanstring_escape_char:
  assumes "c < 0x110000" and "\<not> (is_high c \<and> starts_low E)"
  shows "scanstring (escape_char c @ E) = prepend c (scanstring E)"
proof -
  consider (short) "c = 92 \<or> c = 34 \<or> c = 8 \<or> c = 12 \<or> c = 10 \<or> c = 13 \<or> c = 9"
    | (plain) "32 \<le> c" "c \<le> 126" "c \<noteq> 92" "c \<noteq> 34"
    | (bmp) "c < 32 \<or> 126 < c" "c < 65536" "c \<noteq> 8" "c \<noteq> 12" "c \<noteq> 10" "c \<noteq> 13" "c \<noteq> 9"
    | (astral) "65536 \<le> c"
    by linarith
  then show ?thesis
  proof cases
    case short
    then show ?thesis by (auto simp: escape_char_def backslash_def)
  next
    case plain
    then show ?thesis by (simp add: escape_char_def)
  next
    case bmp
    then have esc: "escape_char c = 92 # 117 # hex4 c"
      by (auto simp: escape_char_def u_escape_def)
    have dec: "decode_uXXXX (hex4 c @ E) = Some c" using bmp(2) by (rule decode_hex4)
    show ?thesis
    proof (cases "is_high c \<and> take 2 E = [92, 117]")
      case True
      with assms(2) obtain u where u: "decode_uXXXX (drop 2 E) = Some u" "\<not> is_low u"
        by (auto simp: starts_low_def split: option.splits)
      from True u show ?thesis
        by (auto simp: esc dec is_high_def is_low_def)
    next
      case False
      then show ?thesis
        by (auto simp: esc dec is_high_def)
    qed
  next
    case astral
    define n where "n = c - 65536"
    define s1 where "s1 = 0xd800 + n div 1024"
    define s2 where "s2 = 0xdc00 + n mod 1024"
    from surrogates_of [OF astral assms(1)]
    have esc: "escape_char c = 92 # 117 # hex4 s1 @ 92 # 117 # hex4 s2"
      and small: "n div 1024 < 1024"
      using astral by (simp_all add: escape_char_def u_escape_def Let_def n_def s1_def s2_def)
    have s1: "s1 < 65536" "0xd800 \<le> s1" "s1 \<le> 0xdbff" using small by (simp_all add: s1_def)
    have s2: "s2 < 65536" "0xdc00 \<le> s2" "s2 \<le> 0xdfff" by (simp_all add: s2_def)
    have d1: "decode_uXXXX (hex4 s1 @ 92 # 117 # hex4 s2 @ E) = Some s1"
      using s1(1) by (rule decode_hex4)
    have d2: "decode_uXXXX (hex4 s2 @ E) = Some s2"
      using s2(1) by (rule decode_hex4)
    have join: "65536 + (push_bit 10 (s1 - 0xd800) OR (s2 - 0xdc00)) = c"
      using surrogates_join [OF astral assms(1)] by (simp add: s1_def s2_def n_def)
    show ?thesis
      using s1 s2 by (simp add: esc d1 d2 join)
  qed
qed

lemma escape_char_not_starts_low:
  assumes "c < 0x110000" and "\<not> is_low c"
  shows "\<not> starts_low (escape_char c @ E)"
proof -
  consider (short) "c = 92 \<or> c = 34 \<or> c = 8 \<or> c = 12 \<or> c = 10 \<or> c = 13 \<or> c = 9"
    | (plain) "32 \<le> c" "c \<le> 126" "c \<noteq> 92" "c \<noteq> 34"
    | (bmp) "c < 32 \<or> 126 < c" "c < 65536" "c \<noteq> 8" "c \<noteq> 12" "c \<noteq> 10" "c \<noteq> 13" "c \<noteq> 9"
    | (astral) "65536 \<le> c"
    by linarith
  then show ?thesis
  proof cases
    case short
    then obtain e where "escape_char c = [92, e]" and "e \<noteq> 117"
      by (auto simp: escape_char_def)
    then show ?thesis by (simp add: starts_low_def)
  next
    case plain
    then show ?thesis by (simp add: escape_char_def starts_low_def)
  next
    case bmp
    then have esc: "escape_char c = 92 # 117 # hex4 c"
      by (auto simp: escape_char_def u_escape_def)
    have dec: "decode_uXXXX (hex4 c @ E) = Some c" using bmp(2) by (rule decode_hex4)
    show ?thesis using assms(2) by (simp add: starts_low_def esc dec)
  next
    case astral
    define n where "n = c - 65536"
    define s1 where "s1 = 0xd800 + n div 1024"
    define s2 where "s2 = 0xdc00 + n mod 1024"
    from surrogates_of [OF astral assms(1)]
    have esc: "escape_char c = 92 # 117 # hex4 s1 @ 92 # 117 # hex4 s2"
      and small: "n div 1024 < 1024"
      using astral by (simp_all add: escape_char_def u_escape_def Let_def n_def s1_def s2_def)
    have s1: "s1 < 65536" "\<not> is_low s1" using small by (simp_all add: s1_def is_low_def)
    have d1: "decode_uXXXX (hex4 s1 @ 92 # 117 # hex4 s2 @ E) = Some s1"
      using s1(1) by (rule decode_hex4)
    show ?thesis using s1(2) by (simp add: starts_low_def esc d1)
  qed
qed

lemma scanstring_escaped:
  assumes "valid_str s" and "no_surrogate_pair s"
  shows "scanstring (concat (map escape_char s) @ 34 # rest) = Inr (s, rest)"
  using assms
proof (induction s)
  case Nil
  then show ?case by simp
next
  case (Cons c s)
  let ?E = "concat (map escape_char s) @ 34 # rest"
  have c: "c < 0x110000" and s: "valid_str s" using Cons.prems(1) by (simp_all add: valid_str_def)
  have nsp: "no_surrogate_pair s" using Cons.prems(2) by (cases s) simp_all
  have "\<not> (is_high c \<and> starts_low ?E)"
  proof (cases s)
    case Nil
    then show ?thesis by (simp add: starts_low_def)
  next
    case (Cons c2 s2)
    show ?thesis
    proof
      assume h: "is_high c \<and> starts_low ?E"
      with Cons.prems(2) Cons have "\<not> is_low c2" by simp
      moreover have "c2 < 0x110000" using s Cons by (simp add: valid_str_def)
      ultimately have "\<not> starts_low (escape_char c2 @ (concat (map escape_char s2) @ 34 # rest))"
        by (rule escape_char_not_starts_low [rotated])
      with h Cons show False by simp
    qed
  qed
  from scanstring_escape_char [OF c this] Cons.IH [OF s nsp]
  show ?case by (simp add: prepend_def)
qed

lemma scanstring_encode_string:
  assumes "valid_str s" and "no_surrogate_pair s"
  shows "scanstring (tl (encode_string s) @ rest) = Inr (s, rest)"
  using scanstring_escaped [OF assms] by (simp add: encode_string_def)

lemma encode_items_Cons:
  "encode_items ((k, v) # kvs) =
     encode_string k @ [58, 32] @ encode_string v
       @ (if kvs = [] then [] else [44, 32] @ encode_items kvs)"
  by (cases kvs) (auto simp: py_def)

lemma encode_items_quote: "kvs \<noteq> [] \<Longrightarrow> encode_items kvs = 34 # tl (encode_items kvs)"
  by (cases kvs) (auto simp: encode_items_Cons encode_string_def)

lemma parse_members_step:
  assumes "scanstring t = Inr (k, 58 # 32 # 34 # t3)" and "scanstring t3 = Inr (v, r)"
  shows "parse_members pairs t =
    (case skip_ws r of
       [] \<Rightarrow> Inl JSONDecodeError
     | d # t5 \<Rightarrow>
        if d = 125 then Inr (pairs @ [(k, v)], t5)
        else if d \<noteq> 44 then Inl JSONDecodeError
        else
         (case skip_ws t5 of
            [] \<Rightarrow> Inl JSONDecodeError
          | q # t6 \<Rightarrow>
             if q = 34 then parse_members (pairs @ [(k, v)]) t6
             else Inl JSONDecodeError))"
  by (subst parse_members.simps) (simp add: assms)

lemma parse_members_encode_items:
  assumes "d \<noteq> []" and "\<forall>(k, v) \<in> set d. encodable k \<and> encodable v"
  shows "parse_members pairs (tl (encode_items d) @ 125 # rest) = Inr (pairs @ d, rest)"
  using assms
proof (induction d arbitrary: pairs)
  case Nil
  then show ?case by simp
next
  case (Cons kv kvs)
  obtain k v where kv: "kv = (k, v)" by (cases kv)
  from Cons.prems(2) kv have k: "valid_str k" "no_surrogate_pair k"
    and v: "valid_str v" "no_surrogate_pair v"
    by (simp_all add: encodable_def)
  let ?tail = "(if kvs = [] then [] else [44, 32] @ encode_items kvs) @ 125 # rest"
  let ?t3 = "concat (map escape_char v) @ 34 # ?tail"
  have shape: "tl (encode_items (kv # kvs)) @ 125 # rest
      = concat (map escape_char k) @ 34 # 58 # 32 # 34 # ?t3"
    by (simp add: kv encode_items_Cons encode_string_def)
  have s1: "scanstring (concat (map escape_char k) @ 34 # 58 # 32 # 34 # ?t3)
      = Inr (k, 58 # 32 # 34 # ?t3)"
    using k by (rule scanstring_escaped)
  have s2: "scanstring ?t3 = Inr (v, ?tail)"
    using v by (rule scanstring_escaped)
  show ?case
  proof (cases "kvs = []")
    case True
    with parse_members_step [OF s1 s2, of pairs] shape kv show ?thesis by simp
  next
    case False
    with Cons.prems(2) have rest: "\<forall>(k, v) \<in> set kvs. encodable k \<and> encodable v" by simp
    from encode_items_quote [OF False]
    have "?tail = 44 # 32 # 34 # tl (encode_items kvs) @ 125 # rest"
      using False by simp
    with parse_members_step [OF s1 s2, of pairs]
    have "parse_members pairs (concat (map escape_char k) @ 34 # 58 # 32 # 34 # ?t3)
        = parse_members (pairs @ [(k, v)]) (tl (encode_items kvs) @ 125 # rest)"
      by simp
    with Cons.IH [OF False rest, of "pairs @ [(k, v)]"] shape kv show ?thesis by simp
  qed
qed

lemma update_fresh: "k \<notin> fst ` set d \<Longrightarrow> AList.update k v d = d @ [(k, v)]"
  by (induction d) auto

lemma dict_of_pairs_distinct:
  "distinct (map fst d) \<Longrightarrow> fst ` set d \<inter> fst ` set acc = {} \<Longrightarrow>
     foldl (\<lambda>d (k, v). AList.update k v d) acc d = acc @ d"
proof (induction d arbitrary: acc)
  case Nil
  then show ?case by simp
next
  case (Cons kv d)
  obtain k v where kv: "kv = (k, v)" by (cases kv)
  from Cons.prems kv have fresh: "k \<notin> fst ` set acc" by auto
  from Cons.prems kv have "fst ` set d \<inter> fst ` set (acc @ [(k, v)]) = {}" by auto
  from Cons.IH [OF _ this] Cons.prems(1) kv fresh show ?case
    by (simp add: update_fresh)
qed

lemma json_loads_dumps:
  assumes "distinct (map fst d)" and "\<forall>(k, v) \<in> set d. encodable k \<and> encodable v"
  shows "json_loads (json_dumps d) = Inr d"
proof (cases "d = []")
  case True
  then show ?thesis
    by (simp add: json_loads_def json_dumps_def parse_object_def dict_of_pairs_def)
next
  case False
  from parse_members_encode_items [OF False assms(2), of "[]" "[]"]
  have "parse_members [] (tl (encode_items d) @ [125]) = Inr (d, [])" by simp
  moreover have "encode_items d = 34 # tl (encode_items d)"
    using False by (rule encode_items_quote)
  then have "json_dumps d = 123 # 34 # tl (encode_items d) @ [125]"
    by (simp add: json_dumps_def)
  moreover have "dict_of_pairs d = d"
    using dict_of_pairs_distinct [OF assms(1), of "[]"] by (simp add: dict_of_pairs_def)
  ultimately show ?thesis
    by (simp add: json_loads_def parse_object_def)
qed

lemma no_high_no_surrogate_pair: "\<forall>c \<in> set s. \<not> is_high c \<Longrightarrow> no_surrogate_pair s"
  by (induction s rule: no_surrogate_pair.induct) simp_all

lemma encodable_ascii [simp]: "encodable (py s)"
proof -
  have small: "c < 256" if "c \<in> set (py s)" for c
    using that by (auto simp: py_def of_char_def)
  have "valid_str (py s)"
    unfolding valid_str_def list_all_iff using small by fastforce
  moreover have "no_surrogate_pair (py s)"
  proof (rule no_high_no_surrogate_pair, rule ballI)
    fix c assume "c \<in> set (py s)"
    from small [OF this] show "\<not> is_high c" by (simp add: is_high_def)
  qed
  ultimately show ?thesis by (simp add: encodable_def)
qed

lemma encodable_Nil [simp]: "encodable []"
  by (simp add: encodable_def valid_str_def)

lemma settings_keys_distinct [simp]:
  "py ''YOUTUBE_URL'' \<noteq> py ''STREAM_KEY''" "py ''STREAM_KEY'' \<noteq> py ''YOUTUBE_URL''"
  by (simp_all add: py_def)

lemma load_saved:
  assumes "encodable yt_url" and "encodable stream_key"
  shows "json_loads (json_dumps [(py ''YOUTUBE_URL'', yt_url), (py ''STREAM_KEY'', stream_key)])
       = Inr [(py ''YOUTUBE_URL'', yt_url), (py ''STREAM_KEY'', stream_key)]"
  using assms by (intro json_loads_dumps) simp_all

lemma load_config_no_file: "config_file s = None \<Longrightarrow> load_config s = Inl FileNotFoundError"
  by (simp add: load_config_def)

lemma scanstring_surrogate_escapes:
  "scanstring (concat (map escape_char [0xD83D, 0xDE00]) @ 34 # r) = Inr ([0x1F600], r)"
proof -
  have esc: "escape_char 0xD83D = 92 # 117 # hex4 0xD83D" "escape_char 0xDE00 = 92 # 117 # hex4 0xDE00"
    by (simp_all add: escape_char_def u_escape_def)
  have d1: "decode_uXXXX (hex4 0xD83D @ 92 # 117 # hex4 0xDE00 @ 34 # r) = Some 0xD83D"
    by (rule decode_hex4) simp
  have d2: "decode_uXXXX (hex4 0xDE00 @ 34 # r) = Some 0xDE00"
    by (rule decode_hex4) simp
  have join: "65536 + (push_bit 10 (0xD83D - 0xd800) OR (0xDE00 - 0xdc00)) = (0x1F600::nat)"
    by (simp add: or_join)
  show ?thesis
    by (simp add: esc d1 d2 join prepend_def)
qed

lemma load_saved_surrogates:
  "json_loads (json_dumps [(py ''YOUTUBE_URL'', [0xD83D, 0xDE00]), (py ''STREAM_KEY'', py ''k'')])
     = Inr [(py ''YOUTUBE_URL'', [0x1F600]), (py ''STREAM_KEY'', py ''k'')]"
proof -
  let ?tail = "44 # 32 # 34 # tl (encode_items [(py ''STREAM_KEY'', py ''k'')]) @ [125]"
  let ?t3 = "concat (map escape_char [0xD83D, 0xDE00]) @ 34 # ?tail"
  let ?t = "concat (map escape_char (py ''YOUTUBE_URL'')) @ 34 # 58 # 32 # 34 # ?t3"
  have shape: "json_dumps [(py ''YOUTUBE_URL'', [0xD83D, 0xDE00]), (py ''STREAM_KEY'', py ''k'')]
      = 123 # 34 # ?t"
    by (simp add: json_dumps_def encode_items_Cons encode_string_def)
  have s1: "scanstring ?t = Inr (py ''YOUTUBE_URL'', 58 # 32 # 34 # ?t3)"
    using encodable_ascii [of "''YOUTUBE_URL''"]
    by (intro scanstring_escaped) (simp_all add: encodable_def)
  have s2: "scanstring ?t3 = Inr ([0x1F600], ?tail)"
    by (rule scanstring_surrogate_escapes)
  have second: "parse_members [(py ''YOUTUBE_URL'', [0x1F600])]
       (tl (encode_items [(py ''STREAM_KEY'', py ''k'')]) @ [125])
     = Inr ([(py ''YOUTUBE_URL'', [0x1F600])] @ [(py ''STREAM_KEY'', py ''k'')], [])"
    by (rule parse_members_encode_items) simp_all
  from parse_members_step [OF s1 s2, of "[]"] second
  have "parse_members [] ?t
      = Inr ([(py ''YOUTUBE_URL'', [0x1F600]), (py ''STREAM_KEY'', py ''k'')], [])"
    by simp
  then show ?thesis
    by (simp add: shape json_loads_def parse_object_def dict_of_pairs_def)
qed

lemma demo_newest: "get_newest_mp4 demo_os (py ''videos'') = Inr (Some (py ''videos/b.mp4''))"
  by (simp add: get_newest_mp4_def demo_os_def mp4_names_def demo_names_def endswith_def py_def)

section \<open>Properties of the settings store\<close>

text \<open>
  Claim C7. When the settings file can be written and neither string holds a high
  surrogate followed at once by a low surrogate, \<open>save_config\<close> followed by
  \<open>load_config\<close> returns the two strings saved, under their two keys. The empty
  string is such a string.
\<close>

theorem save_then_load:
  assumes "config_writable s" and "encodable yt_url" and "encodable stream_key"
  shows "save_config yt_url stream_key s
           = Inr (s\<lparr>config_file :=
                     Some (json_dumps [(py ''YOUTUBE_URL'', yt_url), (py ''STREAM_KEY'', stream_key)])\<rparr>)
       \<and> load_config (s\<lparr>config_file :=
                     Some (json_dumps [(py ''YOUTUBE_URL'', yt_url), (py ''STREAM_KEY'', stream_key)])\<rparr>)
           = Inr [(py ''YOUTUBE_URL'', yt_url), (py ''STREAM_KEY'', stream_key)]"
  using assms by (simp add: save_config_def load_config_def load_saved)

theorem save_then_load_witness:
  "save_config (py ''rtmp://host/live2'') [] (demo_state [] None None)
     = Inr ((demo_state [] None None)\<lparr>config_file :=
              Some (json_dumps [(py ''YOUTUBE_URL'', py ''rtmp://host/live2''), (py ''STREAM_KEY'', [])])\<rparr>)
   \<and> load_config ((demo_state [] None None)\<lparr>config_file :=
              Some (json_dumps [(py ''YOUTUBE_URL'', py ''rtmp://host/live2''), (py ''STREAM_KEY'', [])])\<rparr>)
     = Inr [(py ''YOUTUBE_URL'', py ''rtmp://host/live2''), (py ''STREAM_KEY'', [])]"
proof -
  have h1: "config_writable (demo_state [] None None)" by (simp add: demo_state_def)
  have h2: "encodable (py ''rtmp://host/live2'')" by simp
  have h3: "encodable []" by simp
  show ?thesis by (rule save_then_load [OF h1 h2 h3])
qed

text \<open>
  The string of the two code points \<open>0xD83D\<close> and \<open>0xDE00\<close>, a high surrogate followed
  by a low one, is written as two escapes, which \<open>json.load\<close> reads as the one code
  point \<open>0x1F600\<close>: what is loaded is not what was saved.
\<close>

theorem save_then_load_surrogate_pair:
  "valid_str [0xD83D, 0xDE00]
   \<and> save_config [0xD83D, 0xDE00] (py ''k'') (demo_state [] None None)
       = Inr (demo_state []
               (Some (json_dumps [(py ''YOUTUBE_URL'', [0xD83D, 0xDE00]), (py ''STREAM_KEY'', py ''k'')]))
               None)
   \<and> load_config (demo_state []
               (Some (json_dumps [(py ''YOUTUBE_URL'', [0xD83D, 0xDE00]), (py ''STREAM_KEY'', py ''k'')]))
               None)
       = Inr [(py ''YOUTUBE_URL'', [0x1F600]), (py ''STREAM_KEY'', py ''k'')]
   \<and> load_config (demo_state []
               (Some (json_dumps [(py ''YOUTUBE_URL'', [0xD83D, 0xDE00]), (py ''STREAM_KEY'', py ''k'')]))
               None)
       \<noteq> Inr [(py ''YOUTUBE_URL'', [0xD83D, 0xDE00]), (py ''STREAM_KEY'', py ''k'')]"
  by (simp add: valid_str_def save_config_def load_config_def demo_state_def load_saved_surrogates)

text \<open>
  Claim C8. When the program starts and finds no settings file (and can write one),
  the statements of the module create the file with the default settings, the URL of
  the live ingest and an empty key, before the first \<open>load_config\<close>; that load returns
  the defaults, and so does a later load, from the file.
\<close>

theorem first_run_defaults:
  "\<exists>s0. module_init None True = Inr s0
     \<and> config_file s0 = Some (json_dumps default_config)
     \<and> load_config s0 = Inr default_config
     \<and> getitem default_config (py ''YOUTUBE_URL'') = Inr (py ''rtmp://a.rtmp.youtube.com/live2'')
     \<and> getitem default_config (py ''STREAM_KEY'') = Inr []
     \<and> YOUTUBE_URL s0 = py ''rtmp://a.rtmp.youtube.com/live2''
     \<and> STREAM_KEY s0 = []"
proof -
  have "json_loads (json_dumps default_config) = Inr default_config"
    unfolding default_config_def by (rule load_saved) simp_all
  then show ?thesis
    by (simp add: module_init_def load_config_def Let_def getitem_def default_config_def)
qed

text \<open>
  \<open>load_config\<close> itself creates nothing: called when there is no settings file, as
  \<open>start_stream\<close> does after the file has been removed, it raises \<open>FileNotFoundError\<close>
  and there is still no file.
\<close>

theorem load_config_creates_nothing:
  "config_file (demo_state (py ''videos'') None None) = None
   \<and> load_config (demo_state (py ''videos'') None None) = Inl FileNotFoundError
   \<and> start_stream demo_os (demo_state (py ''videos'') None None)
       = (Inl FileNotFoundError, demo_state (py ''videos'') None None)"
proof -
  let ?s = "demo_state (py ''videos'') None None"
  have absent: "config_file ?s = None" by (simp add: demo_state_def)
  then have load: "load_config ?s = Inl FileNotFoundError" by (simp add: load_config_def)
  have folder: "VIDEO_FOLDER ?s = py ''videos''" by (simp add: demo_state_def)
  have "py ''videos'' \<noteq> []" and "py ''videos/b.mp4'' \<noteq> []" by (simp_all add: py_def)
  then have "start_stream demo_os ?s = (Inl FileNotFoundError, ?s)"
    by (simp add: start_stream_def folder demo_newest load)
  with absent load show ?thesis by simp
qed

section \<open>Properties of the file selector\<close>

lemma endswith_iff: "endswith f suffix = (\<exists>p. f = p @ suffix)"
proof
  assume "endswith f suffix"
  then have "f = take (length f - length suffix) f @ suffix"
    by (metis append_take_drop_id endswith_def)
  then show "\<exists>p. f = p @ suffix" ..
next
  assume "\<exists>p. f = p @ suffix"
  then show "endswith f suffix" by (auto simp: endswith_def)
qed

lemma max_from_greatest:
  assumes "\<forall>x \<in> set xs. \<exists>t. key x = Inr t" and "key m = Inr mv"
  shows "\<exists>y t. max_from key m mv xs = Inr y \<and> y \<in> set (m # xs) \<and> key y = Inr t \<and> mv \<le> t
           \<and> (\<forall>x \<in> set xs. \<forall>u. key x = Inr u \<longrightarrow> u \<le> t)"
  using assms
proof (induction xs arbitrary: m mv)
  case Nil
  then show ?case by simp
next
  case (Cons x xs)
  from Cons.prems obtain v where v: "key x = Inr v" by auto
  have rest: "\<forall>x \<in> set xs. \<exists>t. key x = Inr t" using Cons.prems by simp
  show ?case
  proof (cases "v > mv")
    case True
    from Cons.IH [OF rest v] obtain y t where
      "max_from key x v xs = Inr y" "y \<in> set (x # xs)" "key y = Inr t" "v \<le> t"
      "\<forall>x \<in> set xs. \<forall>u. key x = Inr u \<longrightarrow> u \<le> t" by blast
    with True v show ?thesis by (intro exI [of _ y] exI [of _ t]) auto
  next
    case False
    from Cons.IH [OF rest Cons.prems(2)] obtain y t where
      "max_from key m mv xs = Inr y" "y \<in> set (m # xs)" "key y = Inr t" "mv \<le> t"
      "\<forall>x \<in> set xs. \<forall>u. key x = Inr u \<longrightarrow> u \<le> t" by blast
    with False v show ?thesis by (intro exI [of _ y] exI [of _ t]) auto
  qed
qed

lemma py_max_greatest:
  assumes "\<forall>x \<in> set xs. \<exists>t. key x = Inr t" and "xs \<noteq> []"
  shows "\<exists>y t. py_max key xs = Inr y \<and> y \<in> set xs \<and> key y = Inr t
           \<and> (\<forall>x \<in> set xs. \<forall>u. key x = Inr u \<longrightarrow> u \<le> t)"
proof (cases xs)
  case Nil
  with assms show ?thesis by simp
next
  case (Cons x xs')
  from assms Cons obtain v where v: "key x = Inr v" by auto
  have "\<forall>x \<in> set xs'. \<exists>t. key x = Inr t" using assms Cons by simp
  from max_from_greatest [OF this v] obtain y t where
    "max_from key x v xs' = Inr y" "y \<in> set (x # xs')" "key y = Inr t" "v \<le> t"
    "\<forall>x \<in> set xs'. \<forall>u. key x = Inr u \<longrightarrow> u \<le> t" by blast
  with v Cons show ?thesis by (intro exI [of _ y] exI [of _ t]) auto
qed

text \<open>
  Claim C2. In a folder that is chosen and can be listed, the files considered are
  exactly the listed names that end in \<open>.mp4\<close> (the comparison is on the characters, so
  it is case sensitive). If there is none the result is \<open>None\<close> and no exception.
  Otherwise, when the time stamp of each of these files can be read, the result is the
  path of one of them whose time stamp is greatest among them.
\<close>

theorem get_newest_mp4_newest:
  assumes "folder \<noteq> []" and "listdir os folder = Inr names"
    and "\<forall>f \<in> set (mp4_names names). \<exists>t. getmtime os (path_join os folder f) = Inr t"
  shows "(\<forall>f. f \<in> set (mp4_names names) \<longleftrightarrow> f \<in> set names \<and> (\<exists>p. f = p @ py ''.mp4''))
       \<and> (mp4_names names = [] \<longrightarrow> get_newest_mp4 os folder = Inr None)
       \<and> (mp4_names names \<noteq> [] \<longrightarrow>
            (\<exists>f t. f \<in> set (mp4_names names)
               \<and> get_newest_mp4 os folder = Inr (Some (path_join os folder f))
               \<and> getmtime os (path_join os folder f) = Inr t
               \<and> (\<forall>g \<in> set (mp4_names names). \<forall>u.
                     getmtime os (path_join os folder g) = Inr u \<longrightarrow> u \<le> t)))"
proof (intro conjI impI)
  show "\<forall>f. f \<in> set (mp4_names names) \<longleftrightarrow> f \<in> set names \<and> (\<exists>p. f = p @ py ''.mp4'')"
    by (simp add: mp4_names_def endswith_iff)
next
  assume "mp4_names names = []"
  with assms(1,2) show "get_newest_mp4 os folder = Inr None"
    by (simp add: get_newest_mp4_def)
next
  assume ne: "mp4_names names \<noteq> []"
  let ?files = "map (path_join os folder) (mp4_names names)"
  have keys: "\<forall>x \<in> set ?files. \<exists>t. getmtime os x = Inr t" using assms(3) by auto
  have "?files \<noteq> []" using ne by simp
  from py_max_greatest [OF keys this] obtain y t where
    y: "py_max (getmtime os) ?files = Inr y" "y \<in> set ?files" "getmtime os y = Inr t"
    and greatest: "\<forall>x \<in> set ?files. \<forall>u. getmtime os x = Inr u \<longrightarrow> u \<le> t" by blast
  from y(2) obtain f where f: "f \<in> set (mp4_names names)" "y = path_join os folder f" by auto
  have "get_newest_mp4 os folder = Inr (Some (path_join os folder f))"
    using assms(1,2) ne y(1) f(2) by (simp add: get_newest_mp4_def)
  moreover have "\<forall>g \<in> set (mp4_names names). \<forall>u.
      getmtime os (path_join os folder g) = Inr u \<longrightarrow> u \<le> t"
    using greatest by simp
  ultimately show "\<exists>f t. f \<in> set (mp4_names names)
      \<and> get_newest_mp4 os folder = Inr (Some (path_join os folder f))
      \<and> getmtime os (path_join os folder f) = Inr t
      \<and> (\<forall>g \<in> set (mp4_names names). \<forall>u.
            getmtime os (path_join os folder g) = Inr u \<longrightarrow> u \<le> t)"
    using f y(3) by blast
qed

theorem get_newest_mp4_newest_witness:
  "get_newest_mp4 demo_os (py ''videos'') = Inr (Some (py ''videos/b.mp4''))"
proof -
  have names: "mp4_names demo_names = [py ''a.mp4'', py ''b.mp4'']"
    by (simp add: mp4_names_def demo_names_def endswith_def py_def)
  have h1: "py ''videos'' \<noteq> []" by (simp add: py_def)
  have h2: "listdir demo_os (py ''videos'') = Inr demo_names" by (simp add: demo_os_def)
  have ta: "getmtime demo_os (path_join demo_os (py ''videos'') (py ''a.mp4'')) = Inr 100"
    by (simp add: demo_os_def py_def)
  have tb: "getmtime demo_os (path_join demo_os (py ''videos'') (py ''b.mp4'')) = Inr 200"
    by (simp add: demo_os_def py_def)
  have h3: "\<forall>f \<in> set (mp4_names demo_names).
      \<exists>t. getmtime demo_os (path_join demo_os (py ''videos'') f) = Inr t"
    using ta tb by (simp add: names)
  have ne: "mp4_names demo_names \<noteq> []" by (simp add: names)
  from get_newest_mp4_newest [OF h1 h2 h3] ne obtain f t where
    f: "f \<in> set (mp4_names demo_names)"
    and r: "get_newest_mp4 demo_os (py ''videos'')
              = Inr (Some (path_join demo_os (py ''videos'') f))"
    and t: "getmtime demo_os (path_join demo_os (py ''videos'') f) = Inr t"
    and g: "\<forall>g \<in> set (mp4_names demo_names). \<forall>u.
              getmtime demo_os (path_join demo_os (py ''videos'') g) = Inr u \<longrightarrow> u \<le> t"
    by blast
  from g tb have "200 \<le> t" by (simp add: names)
  with f t ta have "f = py ''b.mp4''" by (auto simp: names)
  with r show ?thesis by (simp add: demo_os_def py_def)
qed

text \<open>
  When the time stamp of a matching file cannot be read, the call raises instead: the
  folder \<open>clips\<close> can be listed and holds two matching names, and the result is the
  exception of \<open>os.path.getmtime\<close> on the broken link.
\<close>

theorem get_newest_mp4_unreadable_entry:
  "py ''clips'' \<noteq> []
   \<and> listdir demo_os (py ''clips'') = Inr [py ''a.mp4'', py ''broken.mp4'']
   \<and> mp4_names [py ''a.mp4'', py ''broken.mp4''] = [py ''a.mp4'', py ''broken.mp4'']
   \<and> getmtime demo_os (path_join demo_os (py ''clips'') (py ''a.mp4'')) = Inr 100
   \<and> getmtime demo_os (path_join demo_os (py ''clips'') (py ''broken.mp4''))
       = Inl FileNotFoundError
   \<and> get_newest_mp4 demo_os (py ''clips'') = Inl FileNotFoundError"
  by (simp add: get_newest_mp4_def demo_os_def mp4_names_def endswith_def py_def)

text \<open>
  Claim C9. When a folder is chosen and listing it raises, \<open>get_newest_mp4\<close> raises
  that exception; this differs from the \<open>None\<close> it returns when no folder is chosen.
\<close>

theorem get_newest_mp4_unreadable:
  assumes "folder \<noteq> []" and "listdir os folder = Inl e"
  shows "get_newest_mp4 os folder = Inl e
       \<and> get_newest_mp4 os folder \<noteq> Inr None
       \<and> get_newest_mp4 os [] = Inr None"
  using assms by (simp add: get_newest_mp4_def)

theorem get_newest_mp4_unreadable_witness:
  "get_newest_mp4 demo_os (py ''gone'') = Inl OSError
   \<and> get_newest_mp4 demo_os (py ''gone'') \<noteq> Inr None
   \<and> get_newest_mp4 demo_os [] = Inr None"
proof -
  have h1: "py ''gone'' \<noteq> []" by (simp add: py_def)
  have h2: "listdir demo_os (py ''gone'') = Inl OSError" by (simp add: demo_os_def py_def)
  show ?thesis by (rule get_newest_mp4_unreadable [OF h1 h2])
qed

section \<open>Properties of the stream supervisor\<close>

lemma start_stream_checks_passed:
  assumes "VIDEO_FOLDER s \<noteq> []"
    and "get_newest_mp4 os (VIDEO_FOLDER s) = Inr (Some newest)" and "newest \<noteq> []"
    and "load_config s = Inr config"
    and "getitem config (py ''YOUTUBE_URL'') = Inr url"
    and "getitem config (py ''STREAM_KEY'') = Inr key" and "key \<noteq> []"
  shows "start_stream os s =
    (let cmd = ffmpeg_command newest url key;
         s1 = s\<lparr>printed := printed s @ [py ''Streaming: '' @ newest],
                popen_calls := popen_calls s @ [cmd]\<rparr>
     in case popen_error os cmd of
          Some e \<Rightarrow> (Inl e, s1)
        | None \<Rightarrow>
           (Inr (),
            s1\<lparr>ffmpeg_process := Some (length (popen_calls s)),
               stream_status_label :=
                 \<lparr>label_text = py ''Streaming: '' @ basename os newest,
                  label_fg = py ''blue''\<rparr>\<rparr>))"
  using assms by (simp add: start_stream_def)

lemma start_stream_cases:
  "start_stream os s = (Inr (), show_dialog no_folder_dialog s)
   \<or> start_stream os s = (Inr (), show_dialog no_mp4_dialog s)
   \<or> start_stream os s = (Inr (), show_dialog missing_key_dialog s)
   \<or> (\<exists>e. start_stream os s = (Inl e, s))
   \<or> (\<exists>e line cmd. start_stream os s =
        (Inl e, s\<lparr>printed := printed s @ [line], popen_calls := popen_calls s @ [cmd]\<rparr>))
   \<or> (\<exists>line cmd name. start_stream os s =
        (Inr (), s\<lparr>printed := printed s @ [line],
                   popen_calls := popen_calls s @ [cmd],
                   ffmpeg_process := Some (length (popen_calls s)),
                   stream_status_label :=
                     \<lparr>label_text = py ''Streaming: '' @ name, label_fg = py ''blue''\<rparr>\<rparr>))"
  unfolding start_stream_def Let_def
  by (simp split: sum.splits option.splits) blast

lemma is_streaming_started [simp]:
  "is_streaming \<lparr>label_text = py ''Streaming: '' @ name, label_fg = c\<rparr>"
  by (simp add: is_streaming_def py_def)

lemma not_is_streaming_stopped [simp]:
  "\<not> is_streaming \<lparr>label_text = py ''Stream Stopped'', label_fg = c\<rparr>"
  by (simp add: is_streaming_def py_def)

lemma not_is_streaming_initial [simp]:
  "\<not> is_streaming \<lparr>label_text = py ''Stream Status: Not Started'', label_fg = c\<rparr>"
  by (simp add: is_streaming_def py_def)

lemma module_init_globals:
  assumes "module_init file writable = Inr s0"
  shows "ffmpeg_process s0 = None"
    and "stream_status_label s0 =
           \<lparr>label_text = py ''Stream Status: Not Started'', label_fg = py ''gray''\<rparr>"
    and "VIDEO_FOLDER s0 = []" and "popen_calls s0 = []" and "terminate_calls s0 = []"
  using assms
  by (auto simp: module_init_def Let_def split: if_splits sum.splits)

text \<open>The scenario: what the selector finds and what the settings files hold.\<close>

lemma demo_settings_load: "json_loads (json_dumps demo_settings) = Inr demo_settings"
  unfolding demo_settings_def by (rule load_saved) simp_all

lemma default_config_load: "json_loads (json_dumps default_config) = Inr default_config"
  unfolding default_config_def by (rule load_saved) simp_all

lemma module_init_first_run: "\<exists>s0. module_init None True = Inr s0"
  by (simp add: module_init_def load_config_def Let_def default_config_load)
     (simp add: getitem_def default_config_def)

lemma demo_start:
  fixes p :: "nat option"
  defines "s \<equiv> demo_state (py ''videos'') (Some (json_dumps demo_settings)) p"
  shows "start_stream demo_os s = (Inr (), snd (start_stream demo_os s))"
    and "popen_calls (snd (start_stream demo_os s))
          = popen_calls s
              @ [ffmpeg_command (py ''videos/b.mp4'') (py ''rtmp://host/live2'') (py ''secret123'')]"
proof -
  have h1: "VIDEO_FOLDER s \<noteq> []" by (simp add: s_def demo_state_def py_def)
  have h2: "get_newest_mp4 demo_os (VIDEO_FOLDER s) = Inr (Some (py ''videos/b.mp4''))"
    by (simp add: s_def demo_state_def demo_newest)
  have h3: "py ''videos/b.mp4'' \<noteq> []" by (simp add: py_def)
  have h4: "load_config s = Inr demo_settings"
    by (simp add: s_def load_config_def demo_state_def demo_settings_load)
  have h5: "getitem demo_settings (py ''YOUTUBE_URL'') = Inr (py ''rtmp://host/live2'')"
    by (simp add: getitem_def demo_settings_def)
  have h6: "getitem demo_settings (py ''STREAM_KEY'') = Inr (py ''secret123'')"
    by (simp add: getitem_def demo_settings_def)
  have h7: "py ''secret123'' \<noteq> []" by (simp add: py_def)
  have ok: "popen_error demo_os c = None" for c by (simp add: demo_os_def)
  note start = start_stream_checks_passed [OF h1 h2 h3 h4 h5 h6 h7]
  show "start_stream demo_os s = (Inr (), snd (start_stream demo_os s))"
    by (simp add: start Let_def ok)
  show "popen_calls (snd (start_stream demo_os s))
          = popen_calls s
              @ [ffmpeg_command (py ''videos/b.mp4'') (py ''rtmp://host/live2'') (py ''secret123'')]"
    by (simp add: start Let_def ok)
qed

text \<open>
  Claim C1. When \<open>start_stream\<close> passes its checks (a folder is chosen, a newest file is
  found, the settings file loads and the stream key in it is not empty), it calls
  \<open>Popen\<close> once, and the argument list is the program \<open>ffmpeg\<close>, the flag \<open>-re\<close>, the
  input \<open>-i\<close> with the newest file, fourteen fixed options each with its value, and
  then one last argument, the only output: the URL and the key joined by \<open>/\<close>. Both
  are the values in the settings file as it is at this call; the globals \<open>YOUTUBE_URL\<close>
  and \<open>STREAM_KEY\<close> loaded when the program started play no part. When \<open>Popen\<close> does not
  raise, the process held afterwards is the one this call made.
\<close>

theorem start_stream_output_target:
  assumes "VIDEO_FOLDER s \<noteq> []"
    and "get_newest_mp4 os (VIDEO_FOLDER s) = Inr (Some newest)" and "newest \<noteq> []"
    and "config_file s = Some txt" and "json_loads txt = Inr config"
    and "getitem config (py ''YOUTUBE_URL'') = Inr url"
    and "getitem config (py ''STREAM_KEY'') = Inr key" and "key \<noteq> []"
  shows "popen_calls (snd (start_stream os (s\<lparr>YOUTUBE_URL := u0, STREAM_KEY := k0\<rparr>)))
           = popen_calls s @
             [[py ''ffmpeg'', py ''-re'', py ''-i'', newest, py ''-s'',
               py ''1920x1080'', py ''-r'', py ''30'', py ''-c:v'',
               py ''libx264'', py ''-preset'', py ''veryfast'', py ''-b:v'',
               py ''4500k'', py ''-maxrate'', py ''5000k'', py ''-bufsize'',
               py ''10000k'', py ''-pix_fmt'', py ''yuv420p'', py ''-g'',
               py ''60'', py ''-c:a'', py ''aac'', py ''-b:a'', py ''192k'',
               py ''-ac'', py ''2'', py ''-ar'', py ''44100'', py ''-f'',
               py ''flv'', url @ py ''/'' @ key]]
       \<and> (popen_error os (ffmpeg_command newest url key) = None \<longrightarrow>
            ffmpeg_process (snd (start_stream os (s\<lparr>YOUTUBE_URL := u0, STREAM_KEY := k0\<rparr>)))
              = Some (length (popen_calls s)))"
proof -
  let ?s = "s\<lparr>YOUTUBE_URL := u0, STREAM_KEY := k0\<rparr>"
  have "load_config ?s = Inr config"
    using assms(4,5) by (simp add: load_config_def)
  from start_stream_checks_passed [of ?s os newest config url key, OF _ _ assms(3) this assms(6,7,8)]
    assms(1,2)
  have "start_stream os ?s =
    (let cmd = ffmpeg_command newest url key;
         s1 = ?s\<lparr>printed := printed ?s @ [py ''Streaming: '' @ newest],
                 popen_calls := popen_calls ?s @ [cmd]\<rparr>
     in case popen_error os cmd of
          Some e \<Rightarrow> (Inl e, s1)
        | None \<Rightarrow>
           (Inr (),
            s1\<lparr>ffmpeg_process := Some (length (popen_calls ?s)),
               stream_status_label :=
                 \<lparr>label_text = py ''Streaming: '' @ basename os newest,
                  label_fg = py ''blue''\<rparr>\<rparr>))"
    by simp
  then have "popen_calls (snd (start_stream os ?s)) = popen_calls s @ [ffmpeg_command newest url key]"
    and "popen_error os (ffmpeg_command newest url key) = None \<longrightarrow>
           ffmpeg_process (snd (start_stream os ?s)) = Some (length (popen_calls s))"
    by (auto simp: Let_def split: option.splits)
  moreover have "ffmpeg_command newest url key =
      [py ''ffmpeg'', py ''-re'', py ''-i'', newest, py ''-s'',
       py ''1920x1080'', py ''-r'', py ''30'', py ''-c:v'', py ''libx264'',
       py ''-preset'', py ''veryfast'', py ''-b:v'', py ''4500k'',
       py ''-maxrate'', py ''5000k'', py ''-bufsize'', py ''10000k'',
       py ''-pix_fmt'', py ''yuv420p'', py ''-g'', py ''60'', py ''-c:a'',
       py ''aac'', py ''-b:a'', py ''192k'', py ''-ac'', py ''2'',
       py ''-ar'', py ''44100'', py ''-f'', py ''flv'', url @ py ''/'' @ key]"
    by (simp add: ffmpeg_command_def)
  ultimately show ?thesis by simp
qed

theorem start_stream_output_target_witness:
  "popen_calls (snd (start_stream demo_os
      ((demo_state (py ''videos'') (Some (json_dumps demo_settings)) None)
         \<lparr>YOUTUBE_URL := py ''stale'', STREAM_KEY := py ''old''\<rparr>)))
     = [[py ''ffmpeg'', py ''-re'', py ''-i'', py ''videos/b.mp4'', py ''-s'',
        py ''1920x1080'', py ''-r'', py ''30'', py ''-c:v'', py ''libx264'',
        py ''-preset'', py ''veryfast'', py ''-b:v'', py ''4500k'',
        py ''-maxrate'', py ''5000k'', py ''-bufsize'', py ''10000k'',
        py ''-pix_fmt'', py ''yuv420p'', py ''-g'', py ''60'', py ''-c:a'',
        py ''aac'', py ''-b:a'', py ''192k'', py ''-ac'', py ''2'',
        py ''-ar'', py ''44100'', py ''-f'', py ''flv'',
        py ''rtmp://host/live2/secret123'']]
   \<and> ffmpeg_process (snd (start_stream demo_os
      ((demo_state (py ''videos'') (Some (json_dumps demo_settings)) None)
         \<lparr>YOUTUBE_URL := py ''stale'', STREAM_KEY := py ''old''\<rparr>)))
     = Some 0"
proof -
  let ?s = "demo_state (py ''videos'') (Some (json_dumps demo_settings)) None"
  have h1: "VIDEO_FOLDER ?s \<noteq> []" by (simp add: demo_state_def py_def)
  have h2: "get_newest_mp4 demo_os (VIDEO_FOLDER ?s) = Inr (Some (py ''videos/b.mp4''))"
    by (simp add: demo_state_def demo_newest)
  have h3: "py ''videos/b.mp4'' \<noteq> []" by (simp add: py_def)
  have h4: "config_file ?s = Some (json_dumps demo_settings)" by (simp add: demo_state_def)
  have h6: "getitem demo_settings (py ''YOUTUBE_URL'') = Inr (py ''rtmp://host/live2'')"
    by (simp add: getitem_def demo_settings_def)
  have h7: "getitem demo_settings (py ''STREAM_KEY'') = Inr (py ''secret123'')"
    by (simp add: getitem_def demo_settings_def)
  have h8: "py ''secret123'' \<noteq> []" by (simp add: py_def)
  have calls: "popen_calls ?s = []" by (simp add: demo_state_def)
  have ok: "popen_error demo_os c = None" for c by (simp add: demo_os_def)
  have target: "py ''rtmp://host/live2'' @ py ''/'' @ py ''secret123'' = py ''rtmp://host/live2/secret123''"
    by (simp add: py_def)
  let ?s' = "snd (start_stream demo_os (?s\<lparr>YOUTUBE_URL := py ''stale'', STREAM_KEY := py ''old''\<rparr>))"
  from start_stream_output_target [OF h1 h2 h3 h4 demo_settings_load h6 h7 h8,
      where ?u0.0 = "py ''stale''" and ?k0.0 = "py ''old''"]
  have a: "popen_calls ?s' = popen_calls ?s @
             [[py ''ffmpeg'', py ''-re'', py ''-i'', py ''videos/b.mp4'',
               py ''-s'', py ''1920x1080'', py ''-r'', py ''30'',
               py ''-c:v'', py ''libx264'', py ''-preset'', py ''veryfast'',
               py ''-b:v'', py ''4500k'', py ''-maxrate'', py ''5000k'',
               py ''-bufsize'', py ''10000k'', py ''-pix_fmt'',
               py ''yuv420p'', py ''-g'', py ''60'', py ''-c:a'', py ''aac'',
               py ''-b:a'', py ''192k'', py ''-ac'', py ''2'', py ''-ar'',
               py ''44100'', py ''-f'', py ''flv'',
               py ''rtmp://host/live2'' @ py ''/'' @ py ''secret123'']]"
    and c: "popen_error demo_os
              (ffmpeg_command (py ''videos/b.mp4'') (py ''rtmp://host/live2'') (py ''secret123''))
              = None \<longrightarrow> ffmpeg_process ?s' = Some (length (popen_calls ?s))"
    by blast+
  from a have "popen_calls ?s' =
             [[py ''ffmpeg'', py ''-re'', py ''-i'', py ''videos/b.mp4'',
               py ''-s'', py ''1920x1080'', py ''-r'', py ''30'',
               py ''-c:v'', py ''libx264'', py ''-preset'', py ''veryfast'',
               py ''-b:v'', py ''4500k'', py ''-maxrate'', py ''5000k'',
               py ''-bufsize'', py ''10000k'', py ''-pix_fmt'',
               py ''yuv420p'', py ''-g'', py ''60'', py ''-c:a'', py ''aac'',
               py ''-b:a'', py ''192k'', py ''-ac'', py ''2'', py ''-ar'',
               py ''44100'', py ''-f'', py ''flv'',
               py ''rtmp://host/live2/secret123'']]"
    by (simp only: calls append_Nil target)
  moreover from c have "ffmpeg_process ?s' = Some 0" by (simp add: ok calls)
  ultimately show ?thesis by blast
qed

text \<open>
  Claim C3. When \<open>start_stream\<close> reaches the reload of the settings and the stream key
  loaded is the empty string, it shows the error \<open>Stream Key is missing!\<close> and does
  nothing else: \<open>Popen\<close> is not called, and the status label and the process held are
  as before.
\<close>

theorem start_stream_missing_key:
  assumes "VIDEO_FOLDER s \<noteq> []"
    and "get_newest_mp4 os (VIDEO_FOLDER s) = Inr (Some newest)" and "newest \<noteq> []"
    and "load_config s = Inr config"
    and "getitem config (py ''YOUTUBE_URL'') = Inr url"
    and "getitem config (py ''STREAM_KEY'') = Inr []"
  shows "start_stream os s = (Inr (), show_dialog missing_key_dialog s)
       \<and> popen_calls (snd (start_stream os s)) = popen_calls s
       \<and> stream_status_label (snd (start_stream os s)) = stream_status_label s
       \<and> ffmpeg_process (snd (start_stream os s)) = ffmpeg_process s"
  using assms by (simp add: start_stream_def show_dialog_def)

theorem start_stream_missing_key_witness:
  "start_stream demo_os (demo_state (py ''videos'') (Some (json_dumps default_config)) None)
     = (Inr (), show_dialog missing_key_dialog
                  (demo_state (py ''videos'') (Some (json_dumps default_config)) None))
   \<and> popen_calls (snd (start_stream demo_os
          (demo_state (py ''videos'') (Some (json_dumps default_config)) None)))
     = popen_calls (demo_state (py ''videos'') (Some (json_dumps default_config)) None)
   \<and> stream_status_label (snd (start_stream demo_os
          (demo_state (py ''videos'') (Some (json_dumps default_config)) None)))
     = stream_status_label (demo_state (py ''videos'') (Some (json_dumps default_config)) None)
   \<and> ffmpeg_process (snd (start_stream demo_os
          (demo_state (py ''videos'') (Some (json_dumps default_config)) None)))
     = ffmpeg_process (demo_state (py ''videos'') (Some (json_dumps default_config)) None)"
proof -
  let ?s = "demo_state (py ''videos'') (Some (json_dumps default_config)) None"
  have h1: "VIDEO_FOLDER ?s \<noteq> []" by (simp add: demo_state_def py_def)
  have h2: "get_newest_mp4 demo_os (VIDEO_FOLDER ?s) = Inr (Some (py ''videos/b.mp4''))"
    by (simp add: demo_state_def demo_newest)
  have h3: "py ''videos/b.mp4'' \<noteq> []" by (simp add: py_def)
  have h4: "load_config ?s = Inr default_config"
    by (simp add: load_config_def demo_state_def default_config_load)
  have h5: "getitem default_config (py ''YOUTUBE_URL'') = Inr (py ''rtmp://a.rtmp.youtube.com/live2'')"
    by (simp add: getitem_def default_config_def)
  have h6: "getitem default_config (py ''STREAM_KEY'') = Inr []"
    by (simp add: getitem_def default_config_def)
  show ?thesis by (rule start_stream_missing_key [OF h1 h2 h3 h4 h5 h6])
qed

text \<open>
  Claim C4. When a folder is chosen and the selector finds no file in it,
  \<open>start_stream\<close> shows the warning \<open>No MP4 Found\<close> and does nothing else: \<open>Popen\<close> is not
  called, and the status label and the process held are as before.
\<close>

theorem start_stream_no_media:
  assumes "VIDEO_FOLDER s \<noteq> []" and "get_newest_mp4 os (VIDEO_FOLDER s) = Inr None"
  shows "start_stream os s = (Inr (), show_dialog no_mp4_dialog s)
       \<and> popen_calls (snd (start_stream os s)) = popen_calls s
       \<and> stream_status_label (snd (start_stream os s)) = stream_status_label s
       \<and> ffmpeg_process (snd (start_stream os s)) = ffmpeg_process s"
  using assms by (simp add: start_stream_def show_dialog_def)

theorem start_stream_no_media_witness:
  "start_stream demo_os (demo_state (py ''docs'') None None)
     = (Inr (), show_dialog no_mp4_dialog (demo_state (py ''docs'') None None))
   \<and> popen_calls (snd (start_stream demo_os (demo_state (py ''docs'') None None))) = []
   \<and> ffmpeg_process (snd (start_stream demo_os (demo_state (py ''docs'') None None))) = None"
proof -
  let ?s = "demo_state (py ''docs'') None None"
  have h1: "VIDEO_FOLDER ?s \<noteq> []" by (simp add: demo_state_def py_def)
  have "get_newest_mp4 demo_os (py ''docs'') = Inr None"
    by (simp add: get_newest_mp4_def demo_os_def mp4_names_def endswith_def py_def)
  then have h2: "get_newest_mp4 demo_os (VIDEO_FOLDER ?s) = Inr None"
    by (simp add: demo_state_def)
  from start_stream_no_media [OF h1 h2] show ?thesis
    by (simp add: demo_state_def show_dialog_def)
qed

text \<open>
  Claim C5. A process is held exactly when the status label announces a stream. This
  holds in the state the module starts with, and \<open>start_stream\<close> (whichever way it
  ends) and \<open>stop_stream\<close> keep it.
\<close>

theorem session_inv_kept:
  "(module_init file writable = Inr s0 \<longrightarrow> session_inv s0)
   \<and> (session_inv s \<longrightarrow> session_inv (snd (start_stream os s)))
   \<and> (session_inv s \<longrightarrow> session_inv (stop_stream s))"
proof (intro conjI impI)
  assume "module_init file writable = Inr s0"
  from module_init_globals(1,2) [OF this] show "session_inv s0"
    by (simp add: session_inv_def)
next
  assume "session_inv s"
  with start_stream_cases [of os s] show "session_inv (snd (start_stream os s))"
    by (auto simp: session_inv_def show_dialog_def)
next
  assume "session_inv s"
  then show "session_inv (stop_stream s)"
    by (auto simp: session_inv_def stop_stream_def show_dialog_def split: option.splits)
qed

theorem session_inv_kept_witness:
  "module_init None True = Inr (projr (module_init None True))
   \<and> session_inv (projr (module_init None True))
   \<and> session_inv (demo_state (py ''videos'') (Some (json_dumps demo_settings)) (Some 0))
   \<and> session_inv (snd (start_stream demo_os
         (demo_state (py ''videos'') (Some (json_dumps demo_settings)) (Some 0))))
   \<and> session_inv (stop_stream
         (demo_state (py ''videos'') (Some (json_dumps demo_settings)) (Some 0)))"
proof -
  let ?s = "demo_state (py ''videos'') (Some (json_dumps demo_settings)) (Some 0)"
  from module_init_first_run have h0: "module_init None True = Inr (projr (module_init None True))"
    by auto
  have h: "session_inv ?s" by (simp add: session_inv_def demo_state_def is_streaming_def py_def)
  from session_inv_kept [of None True "projr (module_init None True)" ?s demo_os] h0 h
  show ?thesis by blast
qed

text \<open>
  Claim C6. When no process is held, \<open>stop_stream\<close> changes nothing (and it has no way
  to raise). After any \<open>stop_stream\<close> no process is held, so a second \<open>stop_stream\<close> in a
  row changes nothing.
\<close>

theorem stop_stream_idle:
  "(ffmpeg_process s = None \<longrightarrow> stop_stream s = s)
   \<and> ffmpeg_process (stop_stream s) = None
   \<and> stop_stream (stop_stream s) = stop_stream s"
  by (simp add: stop_stream_def show_dialog_def split: option.splits)

theorem stop_stream_idle_witness:
  "ffmpeg_process (demo_state (py ''videos'') None None) = None
   \<and> stop_stream (demo_state (py ''videos'') None None) = demo_state (py ''videos'') None None
   \<and> stop_stream (stop_stream (demo_state (py ''videos'') None (Some 0)))
       = stop_stream (demo_state (py ''videos'') None (Some 0))"
proof -
  have h: "ffmpeg_process (demo_state (py ''videos'') None None) = None"
    by (simp add: demo_state_def)
  from stop_stream_idle [of "demo_state (py ''videos'') None None"] h
    stop_stream_idle [of "demo_state (py ''videos'') None (Some 0)"]
  show ?thesis by blast
qed

text \<open>
  Claim C10. When a process is held and \<open>start_stream\<close> spawns a new one (it calls
  \<open>Popen\<close> and ends without an exception), the process held afterwards is the new one,
  a different one from the old, and \<open>terminate()\<close> has been sent to no process.
\<close>

theorem start_stream_drops_old_handle:
  assumes "ffmpeg_process s = Some h" and "h < length (popen_calls s)"
    and "start_stream os s = (Inr (), s')"
    and "popen_calls s' \<noteq> popen_calls s"
  shows "ffmpeg_process s' = Some (length (popen_calls s))
       \<and> length (popen_calls s') = Suc (length (popen_calls s))
       \<and> ffmpeg_process s' \<noteq> Some h
       \<and> terminate_calls s' = terminate_calls s"
  using start_stream_cases [of os s] assms
  by (auto simp: show_dialog_def)

theorem start_stream_drops_old_handle_witness:
  "ffmpeg_process (snd (start_stream demo_os
       (demo_state (py ''videos'') (Some (json_dumps demo_settings)) (Some 0)))) = Some 1
   \<and> ffmpeg_process (snd (start_stream demo_os
       (demo_state (py ''videos'') (Some (json_dumps demo_settings)) (Some 0)))) \<noteq> Some 0
   \<and> terminate_calls (snd (start_stream demo_os
       (demo_state (py ''videos'') (Some (json_dumps demo_settings)) (Some 0)))) = []"
proof -
  let ?s = "demo_state (py ''videos'') (Some (json_dumps demo_settings)) (Some 0)"
  have h1: "ffmpeg_process ?s = Some 0" by (simp add: demo_state_def)
  have h2: "0 < length (popen_calls ?s)" by (simp add: demo_state_def)
  have h3: "start_stream demo_os ?s = (Inr (), snd (start_stream demo_os ?s))"
    by (rule demo_start)
  have h4: "popen_calls (snd (start_stream demo_os ?s)) \<noteq> popen_calls ?s"
    by (simp add: demo_start(2))
  from start_stream_drops_old_handle [OF h1 h2 h3 h4]
  show ?thesis by (simp add: demo_state_def)
qed

end
